theory Spec2Isabelle
  imports Main "HOL-Library.Word"
begin

section \<open>The backoff loop of weaveworks/common/backoff\<close>

text \<open>
  The Go package \<^verbatim>\<open>backoff\<close> runs a caller-supplied function \<^verbatim>\<open>f\<close> in a loop,
  sleeping between the iterations. This theory embeds \<^verbatim>\<open>backoff.go\<close>: the struct, its
  constructor and setters, and \<^verbatim>\<open>Start\<close> with its loop, and proves what the
  specification says about them.
\<close>

subsection \<open>Data\<close>

text \<open>
  \<^verbatim>\<open>time.Duration\<close> is an \<^verbatim>\<open>int64\<close> count of nanoseconds: \<^verbatim>\<open>backoff *= 2\<close> wraps
  around, and \<^verbatim>\<open>backoff > b.maxBackoff\<close> compares signed values (\<open><s\<close>).
\<close>

type_synonym Duration = "64 word"

definition Second :: Duration where
  "Second = 1000000000"

text \<open>A Go \<^verbatim>\<open>error\<close> is \<^verbatim>\<open>nil\<close> (\<open>None\<close>) or carries a message.\<close>

type_synonym error = "string option"

text \<open>
  The struct. Its fields \<^verbatim>\<open>f\<close>, \<^verbatim>\<open>quit\<close> and \<^verbatim>\<open>done\<close> are the loop's environment:
  what each call of \<^verbatim>\<open>f\<close> returns and which case of the \<^verbatim>\<open>select\<close> fires are
  inputs of the loop below, and closing \<^verbatim>\<open>done\<close> is an event of its trace.
\<close>

record backoff =
  msg :: string
  initialBackoff :: Duration
  maxBackoff :: Duration

definition New :: "string \<Rightarrow> backoff" where
  "New m = \<lparr>msg = m, initialBackoff = 10 * Second, maxBackoff = 60 * Second\<rparr>"

definition SetInitialBackoff :: "Duration \<Rightarrow> backoff \<Rightarrow> backoff" where
  "SetInitialBackoff d b = b\<lparr>initialBackoff := d\<rparr>"

definition SetMaxBackoff :: "Duration \<Rightarrow> backoff \<Rightarrow> backoff" where
  "SetMaxBackoff d b = b\<lparr>maxBackoff := d\<rparr>"

text \<open>The two local variables of \<^verbatim>\<open>Start\<close>.\<close>

record locals =
  backoff :: Duration
  shouldLog :: bool

text \<open>
  What \<^verbatim>\<open>Start\<close> does that can be observed, in order: a call of \<^verbatim>\<open>f\<close>, a line logged
  at warning or at info level with its arguments, the evaluation of
  \<^verbatim>\<open>time.After(backoff)\<close> on entering the \<^verbatim>\<open>select\<close>, and the deferred
  \<^verbatim>\<open>close(b.done)\<close>.
\<close>

datatype event =
  Call
  | Warnf string Duration string
  | Infof string
  | After Duration
  | CloseDone

text \<open>The case of the \<^verbatim>\<open>select\<close> that fires: the timer, or the closed \<^verbatim>\<open>quit\<close>.\<close>

datatype select_case = Timer | Quit

text \<open>
  One iteration's input: the pair \<^verbatim>\<open>(done, err)\<close> that \<^verbatim>\<open>f\<close> returns and the case
  of the \<^verbatim>\<open>select\<close> that ends the wait (not looked at when \<^verbatim>\<open>done\<close> is true).
\<close>

record iteration =
  f_done :: bool
  f_err :: error
  fired :: select_case

subsection \<open>The loop body\<close>

text \<open>Lines 66 to 75: the new delay, and whether this iteration may log.\<close>

definition update :: "backoff \<Rightarrow> error \<Rightarrow> locals \<Rightarrow> locals" where
  "update b e l =
     (case e of
        Some _ \<Rightarrow>
          (let l1 = l\<lparr>backoff := backoff l * 2\<rparr>;
               l2 = l1\<lparr>shouldLog := True\<rparr>
           in if maxBackoff b <s backoff l2
              then l2\<lparr>backoff := maxBackoff b, shouldLog := False\<rparr>
              else l2)
      | None \<Rightarrow> l\<lparr>backoff := initialBackoff b\<rparr>)"

text \<open>Lines 77 to 84: the line logged, if any.\<close>

definition logged :: "backoff \<Rightarrow> error \<Rightarrow> locals \<Rightarrow> event list" where
  "logged b e l =
     (if shouldLog l
      then (case e of
              Some x \<Rightarrow> [Warnf (msg b) (backoff l) x]
            | None \<Rightarrow> [Infof (msg b)])
      else [])"

text \<open>
  One pass through the body of the \<^verbatim>\<open>for\<close>: the events, and the locals for the next
  pass, or \<open>None\<close> when the body returns (line 63 or line 93).
\<close>

definition body :: "backoff \<Rightarrow> locals \<Rightarrow> iteration \<Rightarrow> event list \<times> locals option" where
  "body b l i =
     (if f_done i then ([Call], None)
      else
        (let l1 = update b (f_err i) l;
             out = logged b (f_err i) l1;
             l2 = l1\<lparr>shouldLog := (f_err i \<noteq> None)\<rparr>;
             evs = [Call] @ out @ [After (backoff l2)]
         in case fired i of
              Timer \<Rightarrow> (evs, Some l2)
            | Quit \<Rightarrow> (evs, None)))"

subsection \<open>The loop and Start\<close>

text \<open>
  The loop runs for as long as \<^verbatim>\<open>f\<close> does not report \<^verbatim>\<open>done\<close> and \<^verbatim>\<open>quit\<close> stays
  open, so it is run here on a finite list of iteration inputs. It either returns
  within the list (\<open>Returned\<close>) or has consumed the whole list and is about to call
  \<^verbatim>\<open>f\<close> again with the locals given (\<open>Running\<close>).
\<close>

datatype status = Returned | Running locals

fun loop :: "backoff \<Rightarrow> locals \<Rightarrow> iteration list \<Rightarrow> event list \<times> status" where
  "loop b l [] = ([], Running l)"
| "loop b l (i # is) =
     (case body b l i of
        (evs, None) \<Rightarrow> (evs, Returned)
      | (evs, Some l') \<Rightarrow> (let (evs', st) = loop b l' is in (evs @ evs', st)))"

text \<open>
  \<^verbatim>\<open>Start\<close>: the locals are initialised (lines 57 and 58), the loop runs, and the deferred
  \<^verbatim>\<open>close(b.done)\<close> happens when the function returns.
\<close>

definition Start :: "backoff \<Rightarrow> iteration list \<Rightarrow> event list \<times> status" where
  "Start b is =
     (case loop b \<lparr>backoff = initialBackoff b, shouldLog = True\<rparr> is of
        (evs, Returned) \<Rightarrow> (evs @ [CloseDone], Returned)
      | (evs, Running l) \<Rightarrow> (evs, Running l))"

text \<open>Projections of a trace: the lines logged, and the delays waited for.\<close>

fun is_log :: "event \<Rightarrow> bool" where
  "is_log (Warnf _ _ _) = True"
| "is_log (Infof _) = True"
| "is_log _ = False"

definition logs :: "event list \<Rightarrow> event list" where
  "logs evs = filter is_log evs"

fun delays :: "event list \<Rightarrow> Duration list" where
  "delays [] = []"
| "delays (After d # evs) = d # delays evs"
| "delays (_ # evs) = delays evs"

subsection \<open>Vocabulary of the properties\<close>

text \<open>
  An iteration in which \<^verbatim>\<open>f\<close> returns \<^verbatim>\<open>(false, err)\<close> with a non-nil error and the
  timer ends the wait, and a run of such iterations.
\<close>

definition failure :: "string \<Rightarrow> iteration" where
  "failure x = \<lparr>f_done = False, f_err = Some x, fired = Timer\<rparr>"

definition failures :: "string list \<Rightarrow> iteration list" where
  "failures xs = map failure xs"

text \<open>A delay between \<^verbatim>\<open>initialBackoff\<close> and \<^verbatim>\<open>maxBackoff\<close>, as signed values.\<close>

definition in_range :: "backoff \<Rightarrow> Duration \<Rightarrow> bool" where
  "in_range b d = (initialBackoff b \<le>s d \<and> d \<le>s maxBackoff b)"

text \<open>
  The invariant of the loop behind the range property: the delay is in range, and it is
  zero when \<^verbatim>\<open>initialBackoff\<close> is.
\<close>

definition delay_ok :: "backoff \<Rightarrow> locals \<Rightarrow> bool" where
  "delay_ok b l = (in_range b (backoff l) \<and> (initialBackoff b = 0 \<longrightarrow> backoff l = 0))"

section \<open>Auxiliary facts\<close>

subsection \<open>Doubling a signed 64-bit value\<close>

lemma sint_double:
  fixes w :: Duration
  assumes "- (2 ^ 62) \<le> sint w" "sint w < 2 ^ 62"
  shows "sint (w * 2) = 2 * sint w"
proof -
  have "sint (w * 2) = signed_take_bit 63 (sint w * sint (2 :: Duration))"
    by (simp add: sint_word_ariths)
  also have "\<dots> = signed_take_bit 63 (2 * sint w)"
    by (simp add: mult.commute)
  also have "\<dots> = 2 * sint w"
    using assms by (intro signed_take_bit_int_eq_self) simp_all
  finally show ?thesis .
qed

lemma max_doubled:
  fixes mx :: Duration
  assumes "0 < sint mx" "sint mx < 2 ^ 62"
  shows "mx <s mx * 2"
proof -
  have "sint (mx * 2) = 2 * sint mx"
    using assms by (intro sint_double) simp_all
  then show ?thesis
    using assms(1) by (simp add: word_sless_alt)
qed

lemma pow_nonpos:
  fixes i :: int
  assumes "i \<le> 0"
  shows "i * 2 ^ k \<le> i"
proof -
  have "(1::int) \<le> 2 ^ k" by simp
  then have "i * 2 ^ k \<le> i * 1"
    using assms by (intro mult_left_mono_neg) simp_all
  then show ?thesis by simp
qed

lemma pow_pos:
  fixes i :: int
  assumes "0 < i"
  shows "i \<le> i * 2 ^ k"
proof -
  have "(1::int) \<le> 2 ^ k" by simp
  then have "i * 1 \<le> i * 2 ^ k"
    using assms by (intro mult_left_mono) simp_all
  then show ?thesis by simp
qed

text \<open>
  Doubling and clamping, read as integers: as long as no doubling leaves the 64-bit range,
  the result after \<open>k + 1\<close> failures is the minimum of \<open>i * 2 ^ (k + 1)\<close> and the cap.
\<close>

lemma double_clamp:
  fixes d mx :: Duration and i :: int
  assumes le: "i \<le> sint mx"
    and big: "0 < i \<longrightarrow> sint mx < 2 ^ 62"
    and low: "- (2 ^ 63) \<le> i * 2 ^ Suc k"
    and d: "sint d = min (i * 2 ^ k) (sint mx)"
  shows "sint (if mx <s d * 2 then mx else d * 2) = min (i * 2 ^ Suc k) (sint mx)"
proof (cases "0 < i")
  case True
  then have p: "i \<le> i * 2 ^ k" by (rule pow_pos)
  have m: "sint mx < 2 ^ 62" using True big by simp
  have "0 < sint d" "sint d < 2 ^ 62"
    using True p m le d by simp_all
  then have "sint (d * 2) = 2 * sint d"
    by (intro sint_double) simp_all
  then show ?thesis
    using True p le d by (simp add: word_sless_alt min_def)
next
  case False
  then have p: "i * 2 ^ k \<le> i" by (intro pow_nonpos) simp
  then have sd: "sint d = i * 2 ^ k" using le d by simp
  have "- (2 ^ 62) \<le> sint d" "sint d < 2 ^ 62"
    using low False p sd by simp_all
  then have "sint (d * 2) = 2 * sint d"
    by (intro sint_double) simp_all
  then show ?thesis
    using False p le sd by (simp add: word_sless_alt min_def)
qed

subsection \<open>The body on a failure\<close>

lemma update_Some:
  "update b (Some x) l =
     (if maxBackoff b <s backoff l * 2
      then \<lparr>backoff = maxBackoff b, shouldLog = False\<rparr>
      else \<lparr>backoff = backoff l * 2, shouldLog = True\<rparr>)"
  by (simp add: update_def Let_def)

lemma body_failure:
  "body b l (failure x) =
     (if maxBackoff b <s backoff l * 2
      then ([Call, After (maxBackoff b)], Some \<lparr>backoff = maxBackoff b, shouldLog = True\<rparr>)
      else ([Call, Warnf (msg b) (backoff l * 2) x, After (backoff l * 2)],
            Some \<lparr>backoff = backoff l * 2, shouldLog = True\<rparr>))"
  by (simp add: failure_def body_def update_Some logged_def)

lemma body_failure_delay:
  "\<exists>out. body b l (failure x) =
           (out, Some \<lparr>backoff = (if maxBackoff b <s backoff l * 2 then maxBackoff b
                                    else backoff l * 2),
                       shouldLog = True\<rparr>) \<and>
         delays out = [if maxBackoff b <s backoff l * 2 then maxBackoff b else backoff l * 2]"
  by (simp add: body_failure)


lemma delays_append: "delays (xs @ ys) = delays xs @ delays ys"
  by (induction xs rule: delays.induct) simp_all

lemma body_delays:
  assumes "body b l i = (evs, r)"
  shows "delays evs = (if f_done i then [] else [backoff (update b (f_err i) l)])"
    and "r = Some l' \<Longrightarrow> backoff l' = backoff (update b (f_err i) l)"
  using assms
  by (auto simp: body_def Let_def logged_def delays_append
      split: if_splits select_case.splits option.splits)

subsection \<open>The loop on a list of iterations\<close>

lemma loop_Cons_fst:
  "body b l i = (out, Some l') \<Longrightarrow> fst (loop b l (i # is)) = out @ fst (loop b l' is)"
  by (simp split: prod.splits)

lemma loop_append:
  "loop b l (xs @ ys) =
     (case loop b l xs of
        (evs, Returned) \<Rightarrow> (evs, Returned)
      | (evs, Running l') \<Rightarrow> (case loop b l' ys of (evs', st) \<Rightarrow> (evs @ evs', st)))"
proof (induction xs arbitrary: l)
  case Nil
  show ?case by simp
next
  case (Cons i xs)
  show ?case
  proof (cases "body b l i")
    case (Pair evs r)
    show ?thesis
    proof (cases r)
      case None
      with Pair show ?thesis by simp
    next
      case (Some l1)
      with Pair Cons.IH [of l1] show ?thesis
        by (simp split: prod.splits status.splits)
    qed
  qed
qed

text \<open>While \<^verbatim>\<open>f\<close> is not done and the timer fires, the loop keeps running.\<close>

lemma loop_timers:
  "\<forall>j \<in> set pre. \<not> f_done j \<and> fired j = Timer \<Longrightarrow>
   \<exists>evs l'. loop b l pre = (evs, Running l')"
proof (induction pre arbitrary: l)
  case Nil
  show ?case by simp
next
  case (Cons j pre)
  then have j: "\<not> f_done j" "fired j = Timer" by simp_all
  then obtain evs l1 where b: "body b l j = (evs, Some l1)"
    by (simp add: body_def Let_def)
  from Cons obtain evs' l' where "loop b l1 pre = (evs', Running l')"
    by fastforce
  with b show ?case by simp
qed

subsection \<open>Runs of failures\<close>

lemma loop_failures_delays:
  assumes le: "sint (initialBackoff b) \<le> sint (maxBackoff b)"
    and big: "0 < sint (initialBackoff b) \<longrightarrow> sint (maxBackoff b) < 2 ^ 62"
    and low: "- (2 ^ 63) \<le> sint (initialBackoff b) * 2 ^ (k + length xs)"
    and l: "sint (backoff l) = min (sint (initialBackoff b) * 2 ^ k) (sint (maxBackoff b))"
  shows "map sint (delays (fst (loop b l (failures xs)))) =
           map (\<lambda>n. min (sint (initialBackoff b) * 2 ^ n) (sint (maxBackoff b)))
             [Suc k ..< Suc (k + length xs)]"
  using low l
proof (induction xs arbitrary: k l)
  case Nil
  show ?case by (simp add: failures_def)
next
  case (Cons x xs)
  let ?i = "sint (initialBackoff b)"
  define d where "d = (if maxBackoff b <s backoff l * 2 then maxBackoff b else backoff l * 2)"
  define l' where "l' = \<lparr>backoff = d, shouldLog = True\<rparr>"
  have "- (2 ^ 63) \<le> ?i * 2 ^ Suc k"
  proof (cases "0 < ?i")
    case True
    have "- (2 ^ 63) \<le> (0::int)" by simp
    also have "0 \<le> ?i * 2 ^ Suc k" using True by simp
    finally show ?thesis .
  next
    case False
    have "(2::int) ^ Suc k \<le> 2 ^ (k + length (x # xs))"
      by (intro power_increasing) simp_all
    then have "?i * 2 ^ (k + length (x # xs)) \<le> ?i * 2 ^ Suc k"
      using False by (intro mult_left_mono_neg) simp_all
    with Cons.prems(1) show ?thesis by (rule order_trans)
  qed
  then have d: "sint d = min (?i * 2 ^ Suc k) (sint (maxBackoff b))"
    unfolding d_def using le big Cons.prems(2) by (intro double_clamp)
  obtain out where out: "body b l (failure x) = (out, Some l')" "delays out = [d]"
    using body_failure_delay [of b l x] unfolding d_def l'_def by blast
  have "map sint (delays (fst (loop b l' (failures xs)))) =
          map (\<lambda>n. min (?i * 2 ^ n) (sint (maxBackoff b)))
            [Suc (Suc k) ..< Suc (Suc k + length xs)]"
    using Cons.prems(1) d by (intro Cons.IH) (simp_all add: l'_def)
  moreover have "fst (loop b l (failures (x # xs))) = out @ fst (loop b l' (failures xs))"
    using out(1) unfolding failures_def list.map by (rule loop_Cons_fst)
  moreover have "[Suc k ..< Suc (k + length (x # xs))] =
      Suc k # [Suc (Suc k) ..< Suc (Suc k + length xs)]"
    by (simp add: upt_conv_Cons del: upt_Suc)
  ultimately show ?case
    using out(2) d by (simp add: delays_append del: upt_Suc power_Suc)
qed

lemma loop_at_max:
  assumes "0 < sint (maxBackoff b)" "sint (maxBackoff b) < 2 ^ 62"
  shows "loop b \<lparr>backoff = maxBackoff b, shouldLog = True\<rparr> (failures xs) =
           (concat (map (\<lambda>x. [Call, After (maxBackoff b)]) xs),
            Running \<lparr>backoff = maxBackoff b, shouldLog = True\<rparr>)"
proof (induction xs)
  case Nil
  show ?case by (simp add: failures_def)
next
  case (Cons x xs)
  have "body b \<lparr>backoff = maxBackoff b, shouldLog = True\<rparr> (failure x) =
      ([Call, After (maxBackoff b)], Some \<lparr>backoff = maxBackoff b, shouldLog = True\<rparr>)"
    using max_doubled [OF assms] by (simp add: body_failure)
  with Cons show ?case by (simp add: failures_def)
qed

lemma loop_zero:
  assumes "initialBackoff b = 0" "0 \<le>s maxBackoff b"
  shows "loop b \<lparr>backoff = 0, shouldLog = True\<rparr> (failures xs) =
           (concat (map (\<lambda>x. [Call, Warnf (msg b) 0 x, After 0]) xs),
            Running \<lparr>backoff = 0, shouldLog = True\<rparr>)"
proof (induction xs)
  case Nil
  show ?case by (simp add: failures_def)
next
  case (Cons x xs)
  have "\<not> maxBackoff b <s 0"
    using assms(2) by (simp add: word_sle_eq word_sless_alt)
  then have "body b \<lparr>backoff = 0, shouldLog = True\<rparr> (failure x) =
      ([Call, Warnf (msg b) 0 x, After 0], Some \<lparr>backoff = 0, shouldLog = True\<rparr>)"
    by (simp add: body_failure)
  with Cons show ?case by (simp add: failures_def)
qed

subsection \<open>The invariant\<close>

lemma update_delay_ok:
  assumes nn: "0 \<le> sint (initialBackoff b)"
    and le: "sint (initialBackoff b) \<le> sint (maxBackoff b)"
    and big: "0 < sint (initialBackoff b) \<longrightarrow> sint (maxBackoff b) < 2 ^ 62"
    and l: "delay_ok b l"
  shows "delay_ok b (update b e l)"
proof (cases e)
  case None
  then show ?thesis
    using le by (simp add: update_def delay_ok_def in_range_def word_sle_eq)
next
  case (Some x)
  show ?thesis
  proof (cases "initialBackoff b = 0")
    case True
    then show ?thesis
      using l le Some
      by (simp add: update_Some delay_ok_def in_range_def word_sle_eq word_sless_alt)
  next
    case False
    then have "sint (initialBackoff b) \<noteq> 0"
      by (simp add: signed_eq_0_iff)
    then have pos: "0 < sint (initialBackoff b)" using nn by simp
    then have m: "sint (maxBackoff b) < 2 ^ 62" using big by simp
    have r: "sint (initialBackoff b) \<le> sint (backoff l)"
      "sint (backoff l) \<le> sint (maxBackoff b)"
      using l by (simp_all add: delay_ok_def in_range_def word_sle_eq)
    have "sint (backoff l * 2) = 2 * sint (backoff l)"
      using pos m r by (intro sint_double) simp_all
    then show ?thesis
      using pos r False Some
      by (simp add: update_Some delay_ok_def in_range_def word_sle_eq word_sless_alt)
  qed
qed

lemma loop_delay_ok:
  assumes nn: "0 \<le> sint (initialBackoff b)"
    and le: "sint (initialBackoff b) \<le> sint (maxBackoff b)"
    and big: "0 < sint (initialBackoff b) \<longrightarrow> sint (maxBackoff b) < 2 ^ 62"
    and l: "delay_ok b l"
  shows "list_all (in_range b) (delays (fst (loop b l is))) \<and>
         (case snd (loop b l is) of Running l' \<Rightarrow> delay_ok b l' | Returned \<Rightarrow> True)"
  using l
proof (induction "is" arbitrary: l)
  case Nil
  then show ?case by simp
next
  case (Cons i "is")
  obtain evs r where bd: "body b l i = (evs, r)" by (cases "body b l i")
  have u: "delay_ok b (update b (f_err i) l)"
    using nn le big Cons.prems by (rule update_delay_ok)
  have d: "list_all (in_range b) (delays evs)"
    using body_delays(1) [OF bd] u by (simp add: delay_ok_def)
  show ?case
  proof (cases r)
    case None
    with bd d show ?thesis by simp
  next
    case (Some l')
    have "delay_ok b l'"
      using body_delays(2) [OF bd Some] u bd Some
      by (auto simp: delay_ok_def body_def Let_def split: if_splits select_case.splits)
    from Cons.IH [OF this] bd Some d show ?thesis
      by (cases "loop b l' is") (simp add: delays_append)
  qed
qed

section \<open>Properties\<close>

subsection \<open>C1: the delay after a run of failures\<close>

text \<open>
  C1, as stated, fails: the claim lets \<^verbatim>\<open>initialBackoff\<close> and \<^verbatim>\<open>maxBackoff\<close> be any
  durations with \<^verbatim>\<open>initialBackoff <= maxBackoff\<close>, and the doubling of line 67 wraps
  around in \<^verbatim>\<open>int64\<close>. With \<^verbatim>\<open>initialBackoff\<close> \<open>= 3 * 2 ^ 60\<close> ns and
  \<^verbatim>\<open>maxBackoff\<close> \<open>= 2 ^ 62\<close> ns, the first failure is clamped at \<open>2 ^ 62\<close>; the
  second doubles that to \<open>- (2 ^ 63)\<close>, which is not above the cap, so the loop waits
  for \<open>- (2 ^ 63)\<close> ns. The claim says \<open>min (3 * 2 ^ 62) (2 ^ 62) = 2 ^ 62\<close>; even
  with the product taken in \<^verbatim>\<open>int64\<close> it would say \<open>- (2 ^ 62)\<close>.
\<close>

theorem C1_counterexample:
  "sint (3 * 2 ^ 60 :: Duration) \<le> sint (2 ^ 62 :: Duration) \<and>
   map sint (delays (fst (Start \<lparr>msg = ''poll'', initialBackoff = 3 * 2 ^ 60,
                                 maxBackoff = 2 ^ 62\<rparr>
                            (failures [''e1'', ''e2''])))) = [2 ^ 62, - (2 ^ 63)] \<and>
   min (sint (3 * 2 ^ 60 :: Duration) * 2 ^ 2) (sint (2 ^ 62 :: Duration)) = 2 ^ 62 \<and>
   min (sint (3 * 2 ^ 60 * 2 ^ 2 :: Duration)) (sint (2 ^ 62 :: Duration)) = - (2 ^ 62)"
  by (simp add: Start_def failures_def failure_def body_def update_def logged_def
      word_sless_alt)

text \<open>
  C1, amended. Let \<^verbatim>\<open>initialBackoff <= maxBackoff\<close> and let no doubling leave the
  64-bit range: \<^verbatim>\<open>maxBackoff\<close> is below \<open>2 ^ 62\<close> ns when \<^verbatim>\<open>initialBackoff\<close> is
  positive, and \<open>initialBackoff * 2 ^ N\<close> is at least \<open>- (2 ^ 63)\<close> (which only
  restricts a negative \<^verbatim>\<open>initialBackoff\<close>). If \<^verbatim>\<open>f\<close> returns \<^verbatim>\<open>(false, err)\<close> with a
  non-nil error in each of the first \<open>N\<close> iterations, then for every \<open>n\<close> from 1 to
  \<open>N\<close> the delay of the wait after the \<open>n\<close>-th iteration is
  \<open>min (initialBackoff * 2 ^ n) maxBackoff\<close>.
\<close>

theorem C1_delay_after_failures:
  assumes "sint (initialBackoff b) \<le> sint (maxBackoff b)"
    and "0 < sint (initialBackoff b) \<longrightarrow> sint (maxBackoff b) < 2 ^ 62"
    and "- (2 ^ 63) \<le> sint (initialBackoff b) * 2 ^ length xs"
  shows "map sint (delays (fst (Start b (failures xs)))) =
           map (\<lambda>n. min (sint (initialBackoff b) * 2 ^ n) (sint (maxBackoff b)))
             [1 ..< Suc (length xs)]"
proof -
  let ?l0 = "\<lparr>backoff = initialBackoff b, shouldLog = True\<rparr>"
  have run: "\<exists>evs l. loop b ?l0 (failures xs) = (evs, Running l)"
    by (intro loop_timers) (simp add: failures_def failure_def)
  have "map sint (delays (fst (loop b ?l0 (failures xs)))) =
           map (\<lambda>n. min (sint (initialBackoff b) * 2 ^ n) (sint (maxBackoff b)))
             [Suc 0 ..< Suc (0 + length xs)]"
    using assms by (intro loop_failures_delays) simp_all
  then show ?thesis
    using run by (auto simp: Start_def)
qed

text \<open>
  The defaults of \<^verbatim>\<open>New\<close>, 10 s and 60 s, and four failures: the loop waits for 20 s,
  40 s, 60 s and 60 s.
\<close>

theorem C1_delay_after_failures_witness:
  "sint (initialBackoff (New ''poll'')) \<le> sint (maxBackoff (New ''poll'')) \<and>
   sint (maxBackoff (New ''poll'')) < 2 ^ 62 \<and>
   - (2 ^ 63) \<le> sint (initialBackoff (New ''poll'')) * 2 ^ length [''e1'', ''e2'', ''e3'', ''e4''] \<and>
   map sint (delays (fst (Start (New ''poll'') (failures [''e1'', ''e2'', ''e3'', ''e4'']))))
     = [20000000000, 40000000000, 60000000000, 60000000000]"
  using C1_delay_after_failures [of "New ''poll''" "[''e1'', ''e2'', ''e3'', ''e4'']"]
  by (simp add: New_def Second_def upt_conv_Cons del: upt_Suc)

subsection \<open>C2: suppression at the cap, and the line logged on recovery\<close>

text \<open>
  C2, as stated, fails in two ways. First, an iteration in which \<^verbatim>\<open>f\<close> reports
  \<^verbatim>\<open>done\<close> logs nothing: with delays 1 and 4, after two logged failures and a third,
  clamped one, the fourth call returns \<^verbatim>\<open>done\<close> and the trace ends with that call and
  the closing of \<^verbatim>\<open>done\<close>. Second, a failure after a clamped one is logged again when
  doubling \<^verbatim>\<open>maxBackoff\<close> does not exceed it: with \<^verbatim>\<open>maxBackoff\<close> \<open>= 2 ^ 62\<close> ns the
  doubling wraps around to \<open>- (2 ^ 63)\<close>, and with \<^verbatim>\<open>maxBackoff = 0\<close> the doubled
  delay is 0 again.
\<close>

theorem C2_counterexample:
  "Start \<lparr>msg = ''poll'', initialBackoff = 1, maxBackoff = 4\<rparr>
     (failures [''e1'', ''e2'', ''e3''] @ [\<lparr>f_done = True, f_err = None, fired = Timer\<rparr>]) =
     ([Call, Warnf ''poll'' 2 ''e1'', After 2,
       Call, Warnf ''poll'' 4 ''e2'', After 4,
       Call, After 4,
       Call, CloseDone], Returned) \<and>
   Start \<lparr>msg = ''poll'', initialBackoff = 3 * 2 ^ 60, maxBackoff = 2 ^ 62\<rparr>
     (failures [''e1'', ''e2'']) =
     ([Call, After (2 ^ 62),
       Call, Warnf ''poll'' (2 ^ 63) ''e2'', After (2 ^ 63)],
      Running \<lparr>backoff = 2 ^ 63, shouldLog = True\<rparr>) \<and>
   sint (2 ^ 63 :: Duration) = - (2 ^ 63) \<and>
   Start \<lparr>msg = ''poll'', initialBackoff = 1, maxBackoff = 0\<rparr>
     (failures [''e1'', ''e2'']) =
     ([Call, After 0,
       Call, Warnf ''poll'' 0 ''e2'', After 0],
      Running \<lparr>backoff = 0, shouldLog = True\<rparr>)"
  by (simp add: Start_def failures_def failure_def body_def update_def logged_def
      word_sless_alt)

text \<open>
  C2, amended. Let \<^verbatim>\<open>maxBackoff\<close> be positive and below \<open>2 ^ 62\<close> ns, and let a
  failure be clamped at \<^verbatim>\<open>maxBackoff\<close>. Then neither that failure nor any of the failures
  that follow it without interruption is logged, each waiting for \<^verbatim>\<open>maxBackoff\<close>. The
  next iteration in which \<^verbatim>\<open>f\<close> returns \<^verbatim>\<open>(false, nil)\<close> logs exactly one line, the
  info line, and resets the delay. An iteration in which \<^verbatim>\<open>f\<close> returns \<^verbatim>\<open>done\<close>
  logs nothing and ends the loop.
\<close>

theorem C2_suppressed_until_recovery:
  assumes "0 < sint (maxBackoff b)" "sint (maxBackoff b) < 2 ^ 62"
    and "maxBackoff b <s backoff l * 2"
  shows "loop b l (failures (x # xs)) =
           (concat (map (\<lambda>x. [Call, After (maxBackoff b)]) (x # xs)),
            Running \<lparr>backoff = maxBackoff b, shouldLog = True\<rparr>) \<and>
         loop b l (failures (x # xs) @ [\<lparr>f_done = False, f_err = None, fired = Timer\<rparr>]) =
           (concat (map (\<lambda>x. [Call, After (maxBackoff b)]) (x # xs)) @
              [Call, Infof (msg b), After (initialBackoff b)],
            Running \<lparr>backoff = initialBackoff b, shouldLog = False\<rparr>) \<and>
         loop b l (failures (x # xs) @ [\<lparr>f_done = True, f_err = e, fired = s\<rparr>]) =
           (concat (map (\<lambda>x. [Call, After (maxBackoff b)]) (x # xs)) @ [Call], Returned)"
proof -
  let ?m = "\<lparr>backoff = maxBackoff b, shouldLog = True\<rparr>"
  have first: "body b l (failure x) = ([Call, After (maxBackoff b)], Some ?m)"
    using assms(3) by (simp add: body_failure)
  have run: "loop b l (failures (x # xs)) =
      (concat (map (\<lambda>x. [Call, After (maxBackoff b)]) (x # xs)), Running ?m)"
    using first loop_at_max [OF assms(1,2), of xs] by (simp add: failures_def)
  have ok: "body b ?m \<lparr>f_done = False, f_err = None, fired = Timer\<rparr> =
      ([Call, Infof (msg b), After (initialBackoff b)],
       Some \<lparr>backoff = initialBackoff b, shouldLog = False\<rparr>)"
    by (simp add: body_def update_def logged_def)
  have fin: "body b ?m \<lparr>f_done = True, f_err = e, fired = s\<rparr> = ([Call], None)"
    by (simp add: body_def)
  show ?thesis
    using run ok fin by (simp add: loop_append)
qed

text \<open>
  With the defaults of \<^verbatim>\<open>New\<close> and the delay at 40 s: two failures, both clamped at
  60 s and not logged, then a call without error, which logs the info line.
\<close>

theorem C2_suppressed_until_recovery_witness:
  "0 < sint (maxBackoff (New ''poll'')) \<and> sint (maxBackoff (New ''poll'')) < 2 ^ 62 \<and>
   maxBackoff (New ''poll'') <s backoff \<lparr>backoff = 40 * Second, shouldLog = True\<rparr> * 2 \<and>
   loop (New ''poll'') \<lparr>backoff = 40 * Second, shouldLog = True\<rparr>
     (failures [''refused'', ''reset''] @ [\<lparr>f_done = False, f_err = None, fired = Timer\<rparr>]) =
     ([Call, After (60 * Second), Call, After (60 * Second),
       Call, Infof ''poll'', After (10 * Second)],
      Running \<lparr>backoff = 10 * Second, shouldLog = False\<rparr>)"
  using C2_suppressed_until_recovery [of "New ''poll''"
      "\<lparr>backoff = 40 * Second, shouldLog = True\<rparr>" "''refused''" "[''reset'']" None Timer]
  by (simp add: New_def Second_def word_sless_alt)

subsection \<open>C3: the first iteration\<close>

text \<open>
  C3, as stated, fails: when the first call fails and the doubled \<^verbatim>\<open>initialBackoff\<close>
  exceeds \<^verbatim>\<open>maxBackoff\<close>, line 71 clears \<^verbatim>\<open>shouldLog\<close> and nothing is logged. With
  \<^verbatim>\<open>initialBackoff\<close> set to 40 s and the default \<^verbatim>\<open>maxBackoff\<close> of 60 s, the first
  iteration calls \<^verbatim>\<open>f\<close> and waits for 60 s, and that is all.
\<close>

theorem C3_counterexample:
  "sint (initialBackoff (SetInitialBackoff (40 * Second) (New ''poll''))) \<le>
     sint (maxBackoff (SetInitialBackoff (40 * Second) (New ''poll''))) \<and>
   Start (SetInitialBackoff (40 * Second) (New ''poll''))
     [\<lparr>f_done = False, f_err = Some ''refused'', fired = Timer\<rparr>] =
     ([Call, After (60 * Second)], Running \<lparr>backoff = 60 * Second, shouldLog = True\<rparr>)"
  by (simp add: Start_def body_def update_def logged_def New_def SetInitialBackoff_def
      Second_def)

text \<open>
  C3, amended. When the first call of \<^verbatim>\<open>f\<close> returns \<^verbatim>\<open>done = false\<close>, the first
  iteration logs exactly one line if the error is nil (the info line) or if the error is
  not nil and the doubled \<^verbatim>\<open>initialBackoff\<close> does not exceed \<^verbatim>\<open>maxBackoff\<close> (the warning,
  with the doubled delay); it logs nothing if the error is not nil and the doubled
  \<^verbatim>\<open>initialBackoff\<close> exceeds \<^verbatim>\<open>maxBackoff\<close>.
\<close>

theorem C3_first_iteration:
  "logs (fst (Start b [\<lparr>f_done = False, f_err = e, fired = s\<rparr>])) =
     (case e of
        None \<Rightarrow> [Infof (msg b)]
      | Some x \<Rightarrow>
          if maxBackoff b <s initialBackoff b * 2 then []
          else [Warnf (msg b) (initialBackoff b * 2) x])"
  by (cases s; cases e)
     (simp_all add: Start_def body_def update_def logged_def logs_def Let_def)

subsection \<open>C4: an iteration that fails\<close>

text \<open>
  C4. In an iteration where \<^verbatim>\<open>f\<close> returns \<^verbatim>\<open>(false, err)\<close> with a non-nil error, the
  delay is doubled (\<^verbatim>\<open>backoff *= 2\<close>). If the doubled value exceeds \<^verbatim>\<open>maxBackoff\<close>, the
  delay becomes \<^verbatim>\<open>maxBackoff\<close>, \<^verbatim>\<open>shouldLog\<close> is false and the iteration logs nothing;
  otherwise \<^verbatim>\<open>shouldLog\<close> is true and the iteration logs one warning with \<^verbatim>\<open>msg\<close>, the
  doubled delay and the error. In particular the warning is logged when the doubled value
  equals \<^verbatim>\<open>maxBackoff\<close>. The iteration waits for the new delay, and when the timer ends
  the wait it hands the new delay on to the next iteration, with \<^verbatim>\<open>shouldLog\<close> set again
  by line 88; when \<^verbatim>\<open>quit\<close> ends the wait the body returns.
\<close>

theorem C4_failure_iteration:
  "update b (Some x) l =
     (if maxBackoff b <s backoff l * 2
      then \<lparr>backoff = maxBackoff b, shouldLog = False\<rparr>
      else \<lparr>backoff = backoff l * 2, shouldLog = True\<rparr>) \<and>
   body b l \<lparr>f_done = False, f_err = Some x, fired = s\<rparr> =
     (if maxBackoff b <s backoff l * 2
      then ([Call, After (maxBackoff b)],
            case s of
              Timer \<Rightarrow> Some \<lparr>backoff = maxBackoff b, shouldLog = True\<rparr>
            | Quit \<Rightarrow> None)
      else ([Call, Warnf (msg b) (backoff l * 2) x, After (backoff l * 2)],
            case s of
              Timer \<Rightarrow> Some \<lparr>backoff = backoff l * 2, shouldLog = True\<rparr>
            | Quit \<Rightarrow> None)) \<and>
   (backoff l * 2 = maxBackoff b \<longrightarrow>
      body b l \<lparr>f_done = False, f_err = Some x, fired = s\<rparr> =
        ([Call, Warnf (msg b) (maxBackoff b) x, After (maxBackoff b)],
         case s of
           Timer \<Rightarrow> Some \<lparr>backoff = maxBackoff b, shouldLog = True\<rparr>
         | Quit \<Rightarrow> None))"
  by (cases s) (simp_all add: body_def update_Some logged_def)

text \<open>
  A delay of 5 under a cap of 10: the doubled delay equals the cap, is logged, and is the
  delay of the next iteration.
\<close>

theorem C4_failure_iteration_witness:
  "(5 :: Duration) * 2 = 10 \<and>
   body \<lparr>msg = ''poll'', initialBackoff = 5, maxBackoff = 10\<rparr>
     \<lparr>backoff = 5, shouldLog = False\<rparr>
     \<lparr>f_done = False, f_err = Some ''refused'', fired = Timer\<rparr> =
     ([Call, Warnf ''poll'' 10 ''refused'', After 10],
      Some \<lparr>backoff = 10, shouldLog = True\<rparr>)"
  using C4_failure_iteration [of "\<lparr>msg = ''poll'', initialBackoff = 5, maxBackoff = 10\<rparr>"
      "''refused''" "\<lparr>backoff = 5, shouldLog = False\<rparr>" Timer]
  by simp

subsection \<open>C5: an iteration without error\<close>

text \<open>
  C5. In an iteration where \<^verbatim>\<open>f\<close> returns \<^verbatim>\<open>(false, nil)\<close>, the delay is set back to
  \<^verbatim>\<open>initialBackoff\<close>, whatever it was before: both the delay that line 74 computes and
  the delay the iteration waits for and hands to the next one.
\<close>

theorem C5_reset_on_no_error:
  "backoff (update b None l) = initialBackoff b \<and>
   (\<exists>out. body b l \<lparr>f_done = False, f_err = None, fired = Timer\<rparr>
            = (Call # out @ [After (initialBackoff b)],
               Some \<lparr>backoff = initialBackoff b, shouldLog = False\<rparr>))"
  by (simp add: update_def body_def Let_def)

subsection \<open>C6: the range of the delay\<close>

text \<open>
  C6, as stated, fails: \<^verbatim>\<open>initialBackoff <= maxBackoff\<close> alone does not keep the delay in
  range. With \<^verbatim>\<open>initialBackoff\<close> \<open>= - 1\<close> and \<^verbatim>\<open>maxBackoff = 4\<close> the first failure
  doubles the delay to \<open>- 2\<close>, below \<^verbatim>\<open>initialBackoff\<close>; with \<^verbatim>\<open>initialBackoff\<close>
  \<open>= 2 ^ 62\<close> and \<^verbatim>\<open>maxBackoff\<close> \<open>= 2 ^ 63 - 1\<close> the doubling wraps around to
  \<open>- (2 ^ 63)\<close>.
\<close>

theorem C6_counterexample:
  "sint (- 1 :: Duration) \<le> sint (4 :: Duration) \<and>
   Start \<lparr>msg = ''poll'', initialBackoff = - 1, maxBackoff = 4\<rparr> (failures [''e1'']) =
     ([Call, Warnf ''poll'' (- 2) ''e1'', After (- 2)],
      Running \<lparr>backoff = - 2, shouldLog = True\<rparr>) \<and>
   \<not> in_range \<lparr>msg = ''poll'', initialBackoff = - 1, maxBackoff = 4\<rparr> (- 2) \<and>
   sint (2 ^ 62 :: Duration) \<le> sint (2 ^ 63 - 1 :: Duration) \<and>
   Start \<lparr>msg = ''poll'', initialBackoff = 2 ^ 62, maxBackoff = 2 ^ 63 - 1\<rparr>
     (failures [''e1'']) =
     ([Call, Warnf ''poll'' (2 ^ 63) ''e1'', After (2 ^ 63)],
      Running \<lparr>backoff = 2 ^ 63, shouldLog = True\<rparr>) \<and>
   \<not> in_range \<lparr>msg = ''poll'', initialBackoff = 2 ^ 62, maxBackoff = 2 ^ 63 - 1\<rparr> (2 ^ 63)"
  by (simp add: Start_def failures_def failure_def body_def update_def logged_def
      in_range_def word_sless_alt word_sle_eq)

text \<open>
  C6, amended. Let \<^verbatim>\<open>0 <= initialBackoff <= maxBackoff\<close>, with \<^verbatim>\<open>maxBackoff\<close> below
  \<open>2 ^ 62\<close> ns unless \<^verbatim>\<open>initialBackoff\<close> is 0. Then, whatever \<^verbatim>\<open>f\<close> returns and
  whichever case of the \<^verbatim>\<open>select\<close> fires, the delay is between \<^verbatim>\<open>initialBackoff\<close> and
  \<^verbatim>\<open>maxBackoff\<close> when the loop starts, in every wait, and when the loop is about to call
  \<^verbatim>\<open>f\<close> again.
\<close>

theorem C6_delay_in_range:
  assumes "0 \<le> sint (initialBackoff b)"
    and "sint (initialBackoff b) \<le> sint (maxBackoff b)"
    and "0 < sint (initialBackoff b) \<longrightarrow> sint (maxBackoff b) < 2 ^ 62"
  shows "list_all (in_range b) (initialBackoff b # delays (fst (Start b is))) \<and>
         (case snd (Start b is) of Running l \<Rightarrow> in_range b (backoff l) | Returned \<Rightarrow> True)"
proof -
  let ?l0 = "\<lparr>backoff = initialBackoff b, shouldLog = True\<rparr>"
  have l0: "delay_ok b ?l0"
    using assms(2) by (simp add: delay_ok_def in_range_def word_sle_eq)
  have i0: "in_range b (initialBackoff b)"
    using assms(2) by (simp add: in_range_def word_sle_eq)
  from loop_delay_ok [OF assms l0, of "is"] i0 show ?thesis
    by (cases "loop b ?l0 is"; cases "snd (loop b ?l0 is)")
       (auto simp: Start_def delays_append delay_ok_def)
qed

text \<open>
  The defaults of \<^verbatim>\<open>New\<close>: three failures and a call without error wait for 20 s,
  40 s, 60 s and 10 s, all between 10 s and 60 s.
\<close>

theorem C6_delay_in_range_witness:
  "0 \<le> sint (initialBackoff (New ''poll'')) \<and>
   sint (initialBackoff (New ''poll'')) \<le> sint (maxBackoff (New ''poll'')) \<and>
   sint (maxBackoff (New ''poll'')) < 2 ^ 62 \<and>
   list_all (in_range (New ''poll''))
     (initialBackoff (New ''poll'') #
      delays (fst (Start (New ''poll'')
        (failures [''e1'', ''e2'', ''e3''] @
         [\<lparr>f_done = False, f_err = None, fired = Timer\<rparr>])))) \<and>
   delays (fst (Start (New ''poll'')
        (failures [''e1'', ''e2'', ''e3''] @
         [\<lparr>f_done = False, f_err = None, fired = Timer\<rparr>])))
     = [20 * Second, 40 * Second, 60 * Second, 10 * Second]"
  using C6_delay_in_range [of "New ''poll''"
      "failures [''e1'', ''e2'', ''e3''] @ [\<lparr>f_done = False, f_err = None, fired = Timer\<rparr>]"]
  by (simp add: New_def Second_def Start_def failures_def failure_def body_def update_def
      logged_def word_sless_alt)

subsection \<open>C7: three failures, then done\<close>

text \<open>
  C7. With \<^verbatim>\<open>initialBackoff\<close> one unit and \<^verbatim>\<open>maxBackoff\<close> four units, for any unit
  \<open>u\<close> of time that is positive and below \<open>2 ^ 60\<close> ns: if \<^verbatim>\<open>f\<close> fails in calls 1 to
  3 and returns \<^verbatim>\<open>done\<close> in call 4, the loop waits for \<open>2 * u\<close>, \<open>4 * u\<close> and
  \<open>4 * u\<close> (clamped, and not logged), and after the fourth call \<^verbatim>\<open>Start\<close> returns
  without another wait.
\<close>

theorem C7_scenario:
  assumes "0 < sint u" "sint u < 2 ^ 60"
  shows "Start \<lparr>msg = m, initialBackoff = u, maxBackoff = 4 * u\<rparr>
           [failure x1, failure x2, failure x3, \<lparr>f_done = True, f_err = e, fired = s\<rparr>] =
         ([Call, Warnf m (2 * u) x1, After (2 * u),
           Call, Warnf m (4 * u) x2, After (4 * u),
           Call, After (4 * u),
           Call, CloseDone], Returned)"
proof -
  let ?b = "\<lparr>msg = m, initialBackoff = u, maxBackoff = 4 * u\<rparr>"
  have d2: "u * 2 = 2 * u" and d4: "2 * u * 2 = 4 * u" and d8: "4 * u * 2 = 8 * u"
    by simp_all
  have s2: "sint (2 * u) = 2 * sint u"
    using assms sint_double [of u] by (simp add: d2)
  have s4: "sint (4 * u) = 4 * sint u"
    using assms s2 sint_double [of "2 * u"] by (simp add: d4)
  have s8: "sint (8 * u) = 8 * sint u"
    using assms s4 sint_double [of "4 * u"] by (simp add: d8)
  have c1: "\<not> 4 * u <s 2 * u"
    using assms s2 s4 by (simp add: word_sless_alt)
  have c3: "4 * u <s 8 * u"
    using assms s4 s8 by (simp add: word_sless_alt)
  have b1: "body ?b \<lparr>backoff = u, shouldLog = True\<rparr> (failure x1) =
      ([Call, Warnf m (2 * u) x1, After (2 * u)], Some \<lparr>backoff = 2 * u, shouldLog = True\<rparr>)"
    using c1 by (simp add: body_failure d2)
  have b2: "body ?b \<lparr>backoff = 2 * u, shouldLog = True\<rparr> (failure x2) =
      ([Call, Warnf m (4 * u) x2, After (4 * u)], Some \<lparr>backoff = 4 * u, shouldLog = True\<rparr>)"
    by (simp add: body_failure d4)
  have b3: "body ?b \<lparr>backoff = 4 * u, shouldLog = True\<rparr> (failure x3) =
      ([Call, After (4 * u)], Some \<lparr>backoff = 4 * u, shouldLog = True\<rparr>)"
    using c3 by (simp add: body_failure d8)
  have b4: "body ?b \<lparr>backoff = 4 * u, shouldLog = True\<rparr>
              \<lparr>f_done = True, f_err = e, fired = s\<rparr> = ([Call], None)"
    by (simp add: body_def)
  show ?thesis
    by (simp add: Start_def b1 b2 b3 b4)
qed

text \<open>The unit of one nanosecond: the waits are 2, 4 and 4.\<close>

theorem C7_scenario_witness:
  "0 < sint (1 :: Duration) \<and> sint (1 :: Duration) < 2 ^ 60 \<and>
   Start \<lparr>msg = ''poll'', initialBackoff = 1, maxBackoff = 4\<rparr>
     [failure ''e1'', failure ''e2'', failure ''e3'',
      \<lparr>f_done = True, f_err = None, fired = Timer\<rparr>] =
     ([Call, Warnf ''poll'' 2 ''e1'', After 2,
       Call, Warnf ''poll'' 4 ''e2'', After 4,
       Call, After 4,
       Call, CloseDone], Returned)"
  using C7_scenario [of 1 "''poll''" "''e1''" "''e2''" "''e3''" None Timer]
  by simp

subsection \<open>C8: done\<close>

text \<open>
  C8. When \<^verbatim>\<open>f\<close> returns \<^verbatim>\<open>done = true\<close> (with any error value), the body returns at
  once: the call of \<^verbatim>\<open>f\<close> is its only event, so there is no update of the delay, no
  line logged and no wait, whatever the locals are and whatever would have come next.
  When this is the first call, \<^verbatim>\<open>Start\<close> calls \<^verbatim>\<open>f\<close> once, closes \<^verbatim>\<open>done\<close> and
  returns.
\<close>

theorem C8_done_returns_at_once:
  "body b l \<lparr>f_done = True, f_err = e, fired = s\<rparr> = ([Call], None) \<and>
   loop b l (\<lparr>f_done = True, f_err = e, fired = s\<rparr> # rest) = ([Call], Returned) \<and>
   Start b (\<lparr>f_done = True, f_err = e, fired = s\<rparr> # rest) = ([Call, CloseDone], Returned)"
  by (simp add: body_def Start_def)

subsection \<open>C9: quit during the wait\<close>



subsection \<open>C10: an initial delay of zero\<close>

text \<open>
  C10. If \<^verbatim>\<open>initialBackoff\<close> is 0 and \<^verbatim>\<open>maxBackoff\<close> is not negative, then no failure
  is suppressed and the delay stays 0: the doubled 0 never exceeds \<^verbatim>\<open>maxBackoff\<close>. In a
  run of failures from the start every iteration logs its warning, with a delay of 0, and
  waits for 0; and whenever the delay is 0, whatever \<^verbatim>\<open>shouldLog\<close> is, an iteration that
  fails logs its warning and leaves the delay at 0.
\<close>

theorem C10_zero_initial:
  assumes "initialBackoff b = 0" "0 \<le>s maxBackoff b"
  shows "Start b (failures xs) =
           (concat (map (\<lambda>x. [Call, Warnf (msg b) 0 x, After 0]) xs),
            Running \<lparr>backoff = 0, shouldLog = True\<rparr>) \<and>
         body b \<lparr>backoff = 0, shouldLog = sl\<rparr> (failure x) =
           ([Call, Warnf (msg b) 0 x, After 0], Some \<lparr>backoff = 0, shouldLog = True\<rparr>)"
proof -
  have "\<not> maxBackoff b <s 0"
    using assms(2) by (simp add: word_sle_eq word_sless_alt)
  then have "body b \<lparr>backoff = 0, shouldLog = sl\<rparr> (failure x) =
      ([Call, Warnf (msg b) 0 x, After 0], Some \<lparr>backoff = 0, shouldLog = True\<rparr>)"
    by (simp add: body_failure)
  then show ?thesis
    using loop_zero [OF assms, of xs] assms(1) by (simp add: Start_def)
qed

text \<open>An initial delay of 0 under the default cap, and three failures.\<close>

theorem C10_zero_initial_witness:
  "initialBackoff (SetInitialBackoff 0 (New ''poll'')) = 0 \<and>
   0 \<le>s maxBackoff (SetInitialBackoff 0 (New ''poll'')) \<and>
   Start (SetInitialBackoff 0 (New ''poll'')) (failures [''refused'', ''reset'', ''timeout'']) =
     ([Call, Warnf ''poll'' 0 ''refused'', After 0,
       Call, Warnf ''poll'' 0 ''reset'', After 0,
       Call, Warnf ''poll'' 0 ''timeout'', After 0],
      Running \<lparr>backoff = 0, shouldLog = True\<rparr>)"
  using C10_zero_initial [of "SetInitialBackoff 0 (New ''poll'')"
      "[''refused'', ''reset'', ''timeout'']"]
  by (simp add: New_def SetInitialBackoff_def Second_def word_sle_eq)

end
